theory Spec2Isabelle
  imports Complex_Main
begin

section \<open>Constants (apps/worker/src/constants.ts)\<close>

text \<open>\<^verbatim>\<open>statusMap = { INVALID: 0, ENABLE: 1, DISABLE: 2 }\<close>, the three recognised
  feed document types with their MIME types, and the upstream page size.\<close>

definition statusMap_INVALID :: int where "statusMap_INVALID = 0"
definition statusMap_ENABLE :: int where "statusMap_ENABLE = 1"
definition statusMap_DISABLE :: int where "statusMap_DISABLE = 2"



definition defaultCount :: nat where "defaultCount = 20"

section \<open>JavaScript strings\<close>

text \<open>\<^verbatim>\<open>String.prototype.includes\<close>: the needle occurs as a contiguous run.\<close>

fun str_includes :: "string \<Rightarrow> string \<Rightarrow> bool" where
  "str_includes [] needle = (needle = [])"
| "str_includes (c # cs) needle =
     (take (length needle) (c # cs) = needle \<or> str_includes cs needle)"


definition orElse :: "string option \<Rightarrow> string \<Rightarrow> string" where
  "orElse a b = (case a of None \<Rightarrow> b | Some s \<Rightarrow> if s \<noteq> [] then s else b)"

text \<open>Decimal rendering of an integer, as a template literal \<^verbatim>\<open>`${n}`\<close> produces it.\<close>

definition digitChar :: "nat \<Rightarrow> char" where
  "digitChar d = ''0123456789'' ! d"

function stringOfNat :: "nat \<Rightarrow> string" where
  "stringOfNat n =
     (if n < 10 then [digitChar n] else stringOfNat (n div 10) @ [digitChar (n mod 10)])"
  by pat_completeness auto
termination
  by (relation "measure id") auto

declare stringOfNat.simps [simp del]

definition stringOfInt :: "int \<Rightarrow> string" where
  "stringOfInt i = (if i < 0 then CHR ''-'' # stringOfNat (nat (- i)) else stringOfNat (nat i))"

section \<open>Tables (apps/worker/schema.sql) and process-local state\<close>

record account =
  acc_id :: string
  acc_token :: string
  acc_name :: string
  acc_status :: int
  acc_created_at :: int
  acc_updated_at :: int

record feed =
  feed_id :: string
  mp_name :: string
  mp_cover :: string
  mp_intro :: string
  feed_status :: int
  sync_time :: int
  update_time :: int
  has_history :: int
  feed_created_at :: int
  feed_updated_at :: int

record article =
  art_id :: string
  mp_id :: string
  title :: string
  pic_url :: string
  publish_time :: int
  art_created_at :: int
  art_updated_at :: int

text \<open>One upstream call as it was sent: the credential id (header \<open>xid\<close>), the feed id
  and the page. The calls sent so far are kept as a history variable, each with the
  tick at which it was sent.\<close>

record request =
  req_xid :: string
  req_mpId :: string
  req_page :: int

text \<open>The D1 tables together with the module-level variables of the sync service
  (\<open>blockedAccountsMap\<close>, \<open>inProgressHistoryMp\<close>, \<open>isRefreshAllMpArticlesRunning\<close>).
  \<open>tick\<close> counts the draws and upstream exchanges made so far and indexes the
  environment's answers; \<open>requests\<close>, \<open>sleeps\<close> and \<open>errorLog\<close> record what was
  sent, how long the process paused (in milliseconds) and what \<open>console.error\<close>
  printed.\<close>

record state =
  accounts :: "account list"
  feeds :: "feed list"
  articles :: "article list"
  blockedAccountsMap :: "string \<rightharpoonup> string list"
  inProgressHistoryMp_id :: string
  inProgressHistoryMp_page :: int
  isRefreshAllMpArticlesRunning :: bool
  tick :: nat
  requests :: "(nat \<times> request) list"
  sleeps :: "int list"
  errorLog :: "string list"

section \<open>The upstream platform\<close>

text \<open>An article summary as the upstream returns it.\<close>

record mpArticle =
  ma_id :: string
  ma_title :: string
  ma_picUrl :: string
  ma_publishTime :: int

text \<open>What \<open>fetch\<close> does: it rejects (network failure, abort on timeout) with an error
  message, or it resolves with an HTTP status, the optional \<open>message\<close> member of the
  JSON body and the payload.\<close>

datatype 'a httpOutcome = Rejected string | Response int "string option" 'a

text \<open>The error object \<open>fetchJson\<close> throws: \<open>error.message\<close>, \<open>error.status\<close> and
  \<open>error.data.message\<close>. A rejected \<open>fetch\<close> carries neither status nor data.\<close>

record jsError =
  err_message :: string
  err_status :: "int option"
  err_data_message :: "string option"

definition fetchJson :: "'a httpOutcome \<Rightarrow> jsError + 'a" where
  "fetchJson out =
     (case out of
        Rejected m \<Rightarrow> Inl \<lparr>err_message = m, err_status = None, err_data_message = None\<rparr>
      | Response st msg d \<Rightarrow>
          if 200 \<le> st \<and> st \<le> 299 then Inr d
          else Inl \<lparr>err_message = orElse msg (''Request failed: '' @ stringOfInt st),
                    err_status = Some st, err_data_message = msg\<rparr>)"

text \<open>The login-result body: \<open>{ message, vid?, token?, username? }\<close>.\<close>

record loginResult =
  lr_message :: string
  lr_vid :: "int option"
  lr_token :: "string option"
  lr_username :: "string option"

text \<open>Everything outside the process: the calendar date in Asia/Shanghai
  (\<open>getTodayDate\<close>), \<open>Date.now()\<close>, the successive values of \<open>Math.random()\<close>, the
  upstream's answer to each articles request and to each login poll, the result of
  \<open>getUpdateDelaySeconds\<close>, and the text behind an article link. Date and time are taken as
  fixed for the duration of one operation.\<close>

record env =
  today :: string
  nowMs :: int
  mathRandom :: "nat \<Rightarrow> real"
  upstream :: "nat \<Rightarrow> request \<Rightarrow> mpArticle list httpOutcome"
  loginPoll :: "nat \<Rightarrow> string \<Rightarrow> loginResult httpOutcome"
  updateDelaySeconds :: int
  SERVER_ORIGIN_URL :: "string option"
  FEED_MODE :: "string option"
  articleContent :: "string \<Rightarrow> string"

datatype error = NoAvailableAccount | FetchFailed jsError | FeedNotExist

section \<open>Daily blocklist (trpc-service)\<close>

definition getBlockedAccountIds :: "env \<Rightarrow> state \<Rightarrow> string list" where
  "getBlockedAccountIds e s =
     (let disabledAccounts = (case blockedAccountsMap s (today e) of None \<Rightarrow> [] | Some l \<Rightarrow> l)
      in filter (\<lambda>i. i \<noteq> []) disabledAccounts)"

definition removeBlockedAccount :: "env \<Rightarrow> string \<Rightarrow> state \<Rightarrow> state" where
  "removeBlockedAccount e i s =
     (case blockedAccountsMap s (today e) of
        None \<Rightarrow> s
      | Some blockedAccounts \<Rightarrow>
          s\<lparr>blockedAccountsMap :=
              (blockedAccountsMap s)(today e \<mapsto> filter (\<lambda>item. item \<noteq> i) blockedAccounts)\<rparr>)"

section \<open>Account queries (db-queries)\<close>

text \<open>\<open>Partial<{ token, name, status }>\<close>.\<close>

record accountPatch =
  ap_token :: "string option"
  ap_name :: "string option"
  ap_status :: "int option"

definition patchAccount :: "accountPatch \<Rightarrow> int \<Rightarrow> account \<Rightarrow> account" where
  "patchAccount p now a =
     a\<lparr>acc_token := (case ap_token p of None \<Rightarrow> acc_token a | Some t \<Rightarrow> t),
       acc_name := (case ap_name p of None \<Rightarrow> acc_name a | Some n \<Rightarrow> n),
       acc_status := (case ap_status p of None \<Rightarrow> acc_status a | Some v \<Rightarrow> v),
       acc_updated_at := now\<rparr>"

text \<open>\<open>UPDATE accounts SET ... WHERE id = ?\<close>: rows with another id are untouched, and
  nothing happens when no row has the id.\<close>

definition updateAccount :: "env \<Rightarrow> string \<Rightarrow> accountPatch \<Rightarrow> state \<Rightarrow> state" where
  "updateAccount e i p s =
     s\<lparr>accounts := map (\<lambda>a. if acc_id a = i then patchAccount p (nowMs e) a else a) (accounts s)\<rparr>"

text \<open>\<open>SELECT ... FROM accounts WHERE status = 1 [AND id NOT IN (blocked)]
  ORDER BY created_at ASC LIMIT 10\<close>. \<open>buildNotInClause\<close> drops the \<open>NOT IN\<close> test for an
  empty list, which excludes nothing either way. Rows with equal \<open>created_at\<close> keep their
  table order.\<close>

definition getAvailableAccounts :: "account list \<Rightarrow> string list \<Rightarrow> account list" where
  "getAvailableAccounts tbl blockedIds =
     take 10 (sort_key acc_created_at
       (filter (\<lambda>a. acc_status a = statusMap_ENABLE \<and> acc_id a \<notin> set blockedIds) tbl))"

section \<open>Credential selection and error handling (trpc-service)\<close>

text \<open>\<open>accounts[Math.floor(Math.random() * accounts.length)]\<close>; a draw consumes one
  tick.\<close>

definition getAvailableAccount :: "env \<Rightarrow> state \<Rightarrow> (error + account) \<times> state" where
  "getAvailableAccount e s =
     (let blocked = getBlockedAccountIds e s;
          cands = getAvailableAccounts (accounts s) blocked
      in if cands = [] then (Inl NoAvailableAccount, s)
         else (Inr (cands ! nat \<lfloor>mathRandom e (tick s) * real (length cands)\<rfloor>),
               s\<lparr>tick := Suc (tick s)\<rparr>))"

definition handleAccountError :: "env \<Rightarrow> string \<Rightarrow> string \<Rightarrow> state \<Rightarrow> state" where
  "handleAccountError e accountId message s =
     (let blockedAccounts = (case blockedAccountsMap s (today e) of None \<Rightarrow> [] | Some l \<Rightarrow> l)
      in if str_includes message ''WeReadError401''
         then updateAccount e accountId
                \<lparr>ap_token = None, ap_name = None, ap_status = Some statusMap_INVALID\<rparr> s
         else if str_includes message ''WeReadError429''
         then s\<lparr>blockedAccountsMap := (blockedAccountsMap s)(today e \<mapsto> blockedAccounts @ [accountId])\<rparr>
         else s)"

text \<open>The message a \<open>catch\<close> block passes on:
  \<open>error?.data?.message || error.message || ''\<close>.\<close>

definition caughtMessage :: "jsError \<Rightarrow> string" where
  "caughtMessage err = orElse (err_data_message err) (err_message err)"


section \<open>Feed and article queries (db-queries)\<close>

definition getFeedById :: "string \<Rightarrow> state \<Rightarrow> feed option" where
  "getFeedById i s = find (\<lambda>f. feed_id f = i) (feeds s)"


definition listEnabledFeeds :: "state \<Rightarrow> feed list" where
  "listEnabledFeeds s = filter (\<lambda>f. feed_status f = statusMap_ENABLE) (feeds s)"

definition countArticlesByMpId :: "string \<Rightarrow> state \<Rightarrow> nat" where
  "countArticlesByMpId mpId s = length (filter (\<lambda>a. mp_id a = mpId) (articles s))"

text \<open>\<open>Partial<{ mpName, mpCover, mpIntro, syncTime, updateTime, status, hasHistory }>\<close>.\<close>

record feedPatch =
  fp_mpName :: "string option"
  fp_mpCover :: "string option"
  fp_mpIntro :: "string option"
  fp_syncTime :: "int option"
  fp_updateTime :: "int option"
  fp_status :: "int option"
  fp_hasHistory :: "int option"

definition patchFeed :: "feedPatch \<Rightarrow> int \<Rightarrow> feed \<Rightarrow> feed" where
  "patchFeed p now f =
     f\<lparr>mp_name := (case fp_mpName p of None \<Rightarrow> mp_name f | Some v \<Rightarrow> v),
       mp_cover := (case fp_mpCover p of None \<Rightarrow> mp_cover f | Some v \<Rightarrow> v),
       mp_intro := (case fp_mpIntro p of None \<Rightarrow> mp_intro f | Some v \<Rightarrow> v),
       sync_time := (case fp_syncTime p of None \<Rightarrow> sync_time f | Some v \<Rightarrow> v),
       update_time := (case fp_updateTime p of None \<Rightarrow> update_time f | Some v \<Rightarrow> v),
       feed_status := (case fp_status p of None \<Rightarrow> feed_status f | Some v \<Rightarrow> v),
       has_history := (case fp_hasHistory p of None \<Rightarrow> has_history f | Some v \<Rightarrow> v),
       feed_updated_at := now\<rparr>"

definition updateFeed :: "env \<Rightarrow> string \<Rightarrow> feedPatch \<Rightarrow> state \<Rightarrow> state" where
  "updateFeed e i p s =
     s\<lparr>feeds := map (\<lambda>f. if feed_id f = i then patchFeed p (nowMs e) f else f) (feeds s)\<rparr>"

text \<open>One \<open>INSERT ... ON CONFLICT(id) DO UPDATE SET title, pic_url, publish_time, mp_id,
  updated_at\<close>: a row with the id is rewritten in place and keeps its \<open>created_at\<close>;
  without one, a new row is added.\<close>

definition upsertArticle :: "int \<Rightarrow> string \<Rightarrow> mpArticle \<Rightarrow> article list \<Rightarrow> article list" where
  "upsertArticle now mpId a tbl =
     (if ma_id a \<in> set (map art_id tbl)
      then map (\<lambda>r. if art_id r = ma_id a
                     then r\<lparr>title := ma_title a, pic_url := ma_picUrl a,
                            publish_time := ma_publishTime a, mp_id := mpId,
                            art_updated_at := now\<rparr>
                     else r) tbl
      else tbl @ [\<lparr>art_id = ma_id a, mp_id = mpId, title = ma_title a, pic_url = ma_picUrl a,
                    publish_time = ma_publishTime a, art_created_at = now,
                    art_updated_at = now\<rparr>])"

text \<open>\<open>db.batch(statements)\<close> runs the statements in order.\<close>

fun upsertRows :: "int \<Rightarrow> string \<Rightarrow> mpArticle list \<Rightarrow> article list \<Rightarrow> article list" where
  "upsertRows now mpId [] tbl = tbl"
| "upsertRows now mpId (a # as) tbl = upsertRows now mpId as (upsertArticle now mpId a tbl)"

definition upsertArticles :: "env \<Rightarrow> string \<Rightarrow> mpArticle list \<Rightarrow> state \<Rightarrow> state" where
  "upsertArticles e mpId arts s = s\<lparr>articles := upsertRows (nowMs e) mpId arts (articles s)\<rparr>"

section \<open>Article sync (trpc-service)\<close>

definition sleep :: "int \<Rightarrow> state \<Rightarrow> state" where
  "sleep ms s = s\<lparr>sleeps := sleeps s @ [ms]\<rparr>"

text \<open>\<open>getMpArticles(env, mpId, page = 1, retryCount = 3)\<close>. Credential selection
  stands before the \<open>try\<close>, so its failure leaves at once; a failed request goes through
  \<open>handleAccountError\<close> and, while \<open>retryCount > 0\<close>, into a new call with
  \<open>retryCount - 1\<close>.\<close>

function getMpArticles ::
  "env \<Rightarrow> string \<Rightarrow> int \<Rightarrow> nat \<Rightarrow> state \<Rightarrow> (error + mpArticle list) \<times> state" where
  "getMpArticles e mpId page retryCount s =
     (case getAvailableAccount e s of
        (Inl err, s1) \<Rightarrow> (Inl err, s1)
      | (Inr account, s1) \<Rightarrow>
          (let rq = \<lparr>req_xid = acc_id account, req_mpId = mpId, req_page = page\<rparr>;
               s2 = s1\<lparr>tick := Suc (tick s1), requests := requests s1 @ [(tick s1, rq)]\<rparr>
           in case fetchJson (upstream e (tick s1) rq) of
                Inr arts \<Rightarrow> (Inr arts, s2)
              | Inl err \<Rightarrow>
                  (let s3 = handleAccountError e (acc_id account) (caughtMessage err) s2
                   in if retryCount > 0 then getMpArticles e mpId page (retryCount - 1) s3
                      else (Inl (FetchFailed err), s3))))"
  by pat_completeness auto
termination
  by (relation "measure (\<lambda>(e, mpId, page, retryCount, s). retryCount)") auto

declare getMpArticles.simps [simp del]

definition refreshMpArticlesAndUpdateFeed ::
  "env \<Rightarrow> string \<Rightarrow> int \<Rightarrow> state \<Rightarrow> (error + int) \<times> state" where
  "refreshMpArticlesAndUpdateFeed e mpId page s =
     (case getMpArticles e mpId page 3 s of
        (Inl err, s1) \<Rightarrow> (Inl err, s1)
      | (Inr arts, s1) \<Rightarrow>
          (let s2 = (if length arts > 0 then upsertArticles e mpId arts s1 else s1);
               hasHistory = (if length arts < defaultCount then 0 else 1);
               s3 = updateFeed e mpId
                      \<lparr>fp_mpName = None, fp_mpCover = None, fp_mpIntro = None,
                       fp_syncTime = Some (nowMs e div 1000), fp_updateTime = None,
                       fp_status = None, fp_hasHistory = Some hasHistory\<rparr> s2
           in (Inr hasHistory, s3)))"

text \<open>The \<open>while (i-- > 0)\<close> loop of \<open>getHistoryMpArticles\<close>, \<open>i\<close> starting at 1000.\<close>

fun historyLoop :: "env \<Rightarrow> string \<Rightarrow> nat \<Rightarrow> state \<Rightarrow> (error + unit) \<times> state" where
  "historyLoop e mpId 0 s = (Inr (), s)"
| "historyLoop e mpId (Suc i) s =
     (if inProgressHistoryMp_id s \<noteq> mpId then (Inr (), s)
      else case refreshMpArticlesAndUpdateFeed e mpId (inProgressHistoryMp_page s) s of
             (Inl err, s1) \<Rightarrow> (Inl err, s1)
           | (Inr hasHistory, s1) \<Rightarrow>
               if hasHistory < 1 then (Inr (), s1)
               else historyLoop e mpId i
                      (sleep (updateDelaySeconds e * 1000)
                         (s1\<lparr>inProgressHistoryMp_page := inProgressHistoryMp_page s1 + 1\<rparr>)))"

text \<open>The body of the \<open>try\<close> in \<open>getHistoryMpArticles\<close>.\<close>

definition historyBody :: "env \<Rightarrow> string \<Rightarrow> state \<Rightarrow> (error + unit) \<times> state" where
  "historyBody e mpId s =
     (case getFeedById mpId s of
        None \<Rightarrow> (Inr (), s)
      | Some f \<Rightarrow>
          if has_history f = 0 then (Inr (), s)
          else let total = countArticlesByMpId mpId s
               in historyLoop e mpId 1000
                    (s\<lparr>inProgressHistoryMp_page := \<lceil>real total / real defaultCount\<rceil>\<rparr>))"

definition getHistoryMpArticles :: "env \<Rightarrow> string \<Rightarrow> state \<Rightarrow> (error + unit) \<times> state" where
  "getHistoryMpArticles e mpId s =
     (if inProgressHistoryMp_id s = mpId then (Inr (), s)
      else let s1 = s\<lparr>inProgressHistoryMp_id := mpId, inProgressHistoryMp_page := 1\<rparr>
           in if inProgressHistoryMp_id s1 = [] then (Inr (), s1)
              else case historyBody e mpId s1 of
                     (r, s2) \<Rightarrow> (r, s2\<lparr>inProgressHistoryMp_id := [], inProgressHistoryMp_page := 1\<rparr>))"

text \<open>The \<open>for (const feed of feeds)\<close> loop of \<open>refreshAllMpArticlesAndUpdateFeed\<close>: a
  failing feed ends the loop with its error.\<close>

fun sweepLoop :: "env \<Rightarrow> feed list \<Rightarrow> state \<Rightarrow> (error + unit) \<times> state" where
  "sweepLoop e [] s = (Inr (), s)"
| "sweepLoop e (f # fs) s =
     (case refreshMpArticlesAndUpdateFeed e (feed_id f) 1 s of
        (Inl err, s1) \<Rightarrow> (Inl err, s1)
      | (Inr hasHistory, s1) \<Rightarrow> sweepLoop e fs (sleep (updateDelaySeconds e * 1000) s1))"




section \<open>Account health check and re-authentication (account-check)\<close>

text \<open>The probe asks for page 1 of the first enabled feed, or of \<open>gh_test\<close> when there is
  none, with the credential under test. Both variants of \<open>checkAccountValidity\<close> in the
  repository read the same.\<close>

definition checkAccountValidity :: "env \<Rightarrow> string \<Rightarrow> string \<Rightarrow> state \<Rightarrow> bool \<times> state" where
  "checkAccountValidity e accountId token s =
     (let fs = listEnabledFeeds s;
          testMpId = (case fs of [] \<Rightarrow> ''gh_test''
                      | f # _ \<Rightarrow> if feed_id f \<noteq> [] then feed_id f else ''gh_test'');
          rq = \<lparr>req_xid = accountId, req_mpId = testMpId, req_page = 1\<rparr>;
          s1 = s\<lparr>tick := Suc (tick s), requests := requests s @ [(tick s, rq)]\<rparr>
      in case fetchJson (upstream e (tick s) rq) of
           Inr d \<Rightarrow> (True, s1)
         | Inl err \<Rightarrow>
             (let errMsg = orElse (err_data_message err) [];
                  statusCode = err_status err
              in if statusCode = Some 401 \<or> str_includes errMsg ''WeReadError401''
                 then (False, s1)
                 else if statusCode = Some 404 then (True, s1)
                 else (True, s1)))"




section \<open>Feed documents (feeds)\<close>















section \<open>The specification's error classes\<close>

text \<open>Follows the specification's words, not the code: HTTP status 401 or an error code
  containing the unauthorized marker is \<open>Unauthorized\<close>; 429 or an error code containing
  the rate-limit marker is \<open>RateLimited\<close>; all else is \<open>Other\<close>. The error code string
  is the message the handler is given.\<close>

datatype errorKind = Unauthorized | RateLimited | Other

definition spec_classify :: "jsError \<Rightarrow> errorKind" where
  "spec_classify err =
     (if err_status err = Some 401 \<or> str_includes (caughtMessage err) ''WeReadError401''
      then Unauthorized
      else if err_status err = Some 429 \<or> str_includes (caughtMessage err) ''WeReadError429''
      then RateLimited
      else Other)"

section \<open>Reading the history of requests\<close>

text \<open>A logged request failed when \<open>fetchJson\<close> threw on the upstream's answer to it. It
  was rejected when the error handler acted on the failure: the message it was given carries
  the unauthorized marker, or the rate-limit marker with a credential id that
  \<open>getBlockedAccountIds\<close> keeps.\<close>

definition requestFailed :: "env \<Rightarrow> nat \<times> request \<Rightarrow> bool" where
  "requestFailed e q = isl (fetchJson (upstream e (fst q) (snd q)))"


text \<open>A credential id is out of the draw when no row with it is valid or when it is among
  today's blocked ids.\<close>

definition outOfDraw :: "env \<Rightarrow> string \<Rightarrow> state \<Rightarrow> bool" where
  "outOfDraw e x s =
     ((\<forall>a \<in> set (accounts s). acc_id a = x \<longrightarrow> acc_status a \<noteq> statusMap_ENABLE)
      \<or> x \<in> set (getBlockedAccountIds e s))"


section \<open>Sample environments and states\<close>

definition exAccount :: "string \<Rightarrow> int \<Rightarrow> int \<Rightarrow> account" where
  "exAccount i st c =
     \<lparr>acc_id = i, acc_token = ''tok-'' @ i, acc_name = ''name-'' @ i, acc_status = st,
      acc_created_at = c, acc_updated_at = c\<rparr>"

definition exEnv :: env where
  "exEnv =
     \<lparr>today = ''2024-05-01'', nowMs = 1714521600000, mathRandom = (\<lambda>k. 1 / 2),
      upstream = (\<lambda>k rq. Rejected ''fetch failed''),
      loginPoll = (\<lambda>k i. Rejected ''fetch failed''),
      updateDelaySeconds = 60, SERVER_ORIGIN_URL = None, FEED_MODE = None,
      articleContent = (\<lambda>i. [])\<rparr>"

definition exState :: state where
  "exState =
     \<lparr>accounts = [], feeds = [], articles = [], blockedAccountsMap = Map.empty,
      inProgressHistoryMp_id = [], inProgressHistoryMp_page = 1,
      isRefreshAllMpArticlesRunning = False, tick = 0, requests = [], sleeps = [],
      errorLog = []\<rparr>"




definition oneAccountState :: state where
  "oneAccountState = exState\<lparr>accounts := [exAccount ''a1'' 1 10]\<rparr>"

definition bareStatusError :: "int \<Rightarrow> jsError" where
  "bareStatusError code =
     \<lparr>err_message = ''Request failed: '' @ stringOfInt code, err_status = Some code,
      err_data_message = None\<rparr>"

definition exArticle :: "string \<Rightarrow> int \<Rightarrow> mpArticle" where
  "exArticle i t = \<lparr>ma_id = i, ma_title = ''title-'' @ i, ma_picUrl = ''pic-'' @ i, ma_publishTime = t\<rparr>"



definition exFeed :: "string \<Rightarrow> int \<Rightarrow> feed" where
  "exFeed i h =
     \<lparr>feed_id = i, mp_name = ''name-'' @ i, mp_cover = ''cover-'' @ i, mp_intro = ''intro-'' @ i,
      feed_status = 1, sync_time = 0, update_time = 1700000000, has_history = h,
      feed_created_at = 0, feed_updated_at = 0\<rparr>"




definition exRow :: "string \<Rightarrow> nat \<Rightarrow> article" where
  "exRow m k =
     \<lparr>art_id = ''row-'' @ stringOfNat k, mp_id = m, title = ''title'', pic_url = ''pic'',
      publish_time = 1700000000 + int k, art_created_at = 0, art_updated_at = 0\<rparr>"

text \<open>One valid credential, the feed \<open>mp1\<close> with more history, and 45 of its articles
  stored.\<close>

definition backfillState :: state where
  "backfillState =
     oneAccountState\<lparr>feeds := [exFeed ''mp1'' 1], articles := map (exRow ''mp1'') [0..<45]\<rparr>"

text \<open>One valid credential and the feed \<open>mp1\<close>.\<close>

definition oneFeedState :: state where
  "oneFeedState = oneAccountState\<lparr>feeds := [exFeed ''mp1'' 1]\<rparr>"



text \<open>An upstream that answers every request with the given status and body message and
  no articles.\<close>

definition statusEnv :: "int \<Rightarrow> string option \<Rightarrow> env" where
  "statusEnv code msg = exEnv\<lparr>upstream := (\<lambda>k rq. Response code msg [])\<rparr>"


section \<open>Basic facts about the account queries\<close>

lemma patchAccount_id [simp]: "acc_id (patchAccount p now a) = acc_id a"
  by (simp add: patchAccount_def)

lemma patchAccount_status: "acc_status (patchAccount p now a) = (case ap_status p of None \<Rightarrow> acc_status a | Some v \<Rightarrow> v)"
  by (simp add: patchAccount_def)

lemma updateAccount_ids: "map acc_id (accounts (updateAccount e x p s)) = map acc_id (accounts s)"
  by (simp add: updateAccount_def o_def cong: map_cong)

lemma updateAccount_hit:
  assumes "a \<in> set (accounts (updateAccount e x p s))" "acc_id a = x"
  shows "\<exists>b \<in> set (accounts s). acc_id b = x \<and> a = patchAccount p (nowMs e) b"
proof -
  from assms(1) have "a \<in> (\<lambda>a. if acc_id a = x then patchAccount p (nowMs e) a else a) ` set (accounts s)"
    by (simp add: updateAccount_def)
  then obtain b where b: "b \<in> set (accounts s)"
    and a: "a = (if acc_id b = x then patchAccount p (nowMs e) b else b)"
    by (rule imageE)
  show ?thesis
  proof (cases "acc_id b = x")
    case True
    with a b show ?thesis by (intro bexI[of _ b]) simp_all
  next
    case False
    with a assms(2) show ?thesis by simp
  qed
qed

lemma updateAccount_miss:
  assumes "b \<in> set (accounts s)" "acc_id b \<noteq> x"
  shows "b \<in> set (accounts (updateAccount e x p s))"
proof -
  let ?f = "\<lambda>a. if acc_id a = x then patchAccount p (nowMs e) a else a"
  have "?f b = b" using assms(2) by simp
  moreover have "?f b \<in> ?f ` set (accounts s)" using assms(1) by (rule imageI)
  ultimately have "b \<in> ?f ` set (accounts s)" by simp
  then show ?thesis by (simp add: updateAccount_def)
qed

lemma updateAccount_other_fields:
  "updateAccount e x p s = s\<lparr>accounts := accounts (updateAccount e x p s)\<rparr>"
  by (simp add: updateAccount_def)


lemma stringOfInt_401: "stringOfInt 401 = ''401''"
  by (simp add: stringOfInt_def stringOfNat.simps digitChar_def)

lemma stringOfInt_429: "stringOfInt 429 = ''429''"
  by (simp add: stringOfInt_def stringOfNat.simps digitChar_def)

subsection \<open>The draw and the candidates\<close>







section \<open>Basic facts about fetching a page\<close>

lemma getAvailableAccount_none:
  "getAvailableAccounts (accounts s) (getBlockedAccountIds e s) = []
   \<Longrightarrow> getAvailableAccount e s = (Inl NoAvailableAccount, s)"
  by (simp add: getAvailableAccount_def)

lemma getAvailableAccount_some:
  "getAvailableAccounts (accounts s) (getBlockedAccountIds e s) \<noteq> []
   \<Longrightarrow> \<exists>a. getAvailableAccount e s = (Inr a, s\<lparr>tick := Suc (tick s)\<rparr>)"
  by (simp add: getAvailableAccount_def Let_def)

lemma getAvailableAccount_Inr:
  assumes "getAvailableAccount e s = (Inr a, s1)"
  shows "s1 = s\<lparr>tick := Suc (tick s)\<rparr>"
    and "getAvailableAccounts (accounts s) (getBlockedAccountIds e s) \<noteq> []"
proof -
  have ne: "getAvailableAccounts (accounts s) (getBlockedAccountIds e s) \<noteq> []"
  proof
    assume "getAvailableAccounts (accounts s) (getBlockedAccountIds e s) = []"
    then have "getAvailableAccount e s = (Inl NoAvailableAccount, s)"
      by (rule getAvailableAccount_none)
    with assms show False by simp
  qed
  then show "getAvailableAccounts (accounts s) (getBlockedAccountIds e s) \<noteq> []" .
  from ne assms show "s1 = s\<lparr>tick := Suc (tick s)\<rparr>"
    by (simp add: getAvailableAccount_def Let_def)
qed

lemma getAvailableAccount_Inl:
  assumes "getAvailableAccount e s = (Inl err, s1)"
  shows "err = NoAvailableAccount" and "s1 = s"
    and "getAvailableAccounts (accounts s) (getBlockedAccountIds e s) = []"
proof -
  have em: "getAvailableAccounts (accounts s) (getBlockedAccountIds e s) = []"
  proof (rule ccontr)
    assume "getAvailableAccounts (accounts s) (getBlockedAccountIds e s) \<noteq> []"
    then obtain a where "getAvailableAccount e s = (Inr a, s\<lparr>tick := Suc (tick s)\<rparr>)"
      using getAvailableAccount_some by blast
    with assms show False by simp
  qed
  then show "getAvailableAccounts (accounts s) (getBlockedAccountIds e s) = []" .
  from em have "getAvailableAccount e s = (Inl NoAvailableAccount, s)"
    by (rule getAvailableAccount_none)
  with assms show "err = NoAvailableAccount" and "s1 = s" by simp_all
qed

lemma getMpArticles_cases [consumes 1, case_names noAccount ok failLast failRetry]:
  assumes run: "getMpArticles e mpId page retryCount s = (res, s')"
  obtains
    (noAccount) "getAvailableAccounts (accounts s) (getBlockedAccountIds e s) = []"
      "res = Inl NoAvailableAccount" "s' = s"
  | (ok) a arts where
      "getAvailableAccount e s = (Inr a, s\<lparr>tick := Suc (tick s)\<rparr>)"
      "fetchJson (upstream e (Suc (tick s))
         \<lparr>req_xid = acc_id a, req_mpId = mpId, req_page = page\<rparr>) = Inr arts"
      "res = Inr arts"
      "s' = s\<lparr>tick := Suc (Suc (tick s)),
              requests := requests s @ [(Suc (tick s),
                 \<lparr>req_xid = acc_id a, req_mpId = mpId, req_page = page\<rparr>)]\<rparr>"
  | (failLast) a err where
      "getAvailableAccount e s = (Inr a, s\<lparr>tick := Suc (tick s)\<rparr>)"
      "fetchJson (upstream e (Suc (tick s))
         \<lparr>req_xid = acc_id a, req_mpId = mpId, req_page = page\<rparr>) = Inl err"
      "retryCount = 0" "res = Inl (FetchFailed err)"
      "s' = handleAccountError e (acc_id a) (caughtMessage err)
              (s\<lparr>tick := Suc (Suc (tick s)),
                 requests := requests s @ [(Suc (tick s),
                   \<lparr>req_xid = acc_id a, req_mpId = mpId, req_page = page\<rparr>)]\<rparr>)"
  | (failRetry) a err n where
      "getAvailableAccount e s = (Inr a, s\<lparr>tick := Suc (tick s)\<rparr>)"
      "fetchJson (upstream e (Suc (tick s))
         \<lparr>req_xid = acc_id a, req_mpId = mpId, req_page = page\<rparr>) = Inl err"
      "retryCount = Suc n"
      "getMpArticles e mpId page n
         (handleAccountError e (acc_id a) (caughtMessage err)
            (s\<lparr>tick := Suc (Suc (tick s)),
               requests := requests s @ [(Suc (tick s),
                 \<lparr>req_xid = acc_id a, req_mpId = mpId, req_page = page\<rparr>)]\<rparr>)) = (res, s')"
proof (cases "getAvailableAccount e s")
  case (Pair r s1)
  show ?thesis
  proof (cases r)
    case (Inl err)
    with Pair have g: "getAvailableAccount e s = (Inl err, s1)" by simp
    from getAvailableAccount_Inl[OF g] have "err = NoAvailableAccount" "s1 = s"
      "getAvailableAccounts (accounts s) (getBlockedAccountIds e s) = []" by simp_all
    moreover from run g have "res = Inl err" "s' = s1"
      by (simp_all add: getMpArticles.simps[of e mpId page retryCount s])
    ultimately show ?thesis using noAccount by simp
  next
    case (Inr a)
    with Pair have g: "getAvailableAccount e s = (Inr a, s1)" by simp
    from getAvailableAccount_Inr(1)[OF g] have s1: "s1 = s\<lparr>tick := Suc (tick s)\<rparr>" .
    let ?rq = "\<lparr>req_xid = acc_id a, req_mpId = mpId, req_page = page\<rparr>"
    let ?s2 = "s\<lparr>tick := Suc (Suc (tick s)), requests := requests s @ [(Suc (tick s), ?rq)]\<rparr>"
    have g': "getAvailableAccount e s = (Inr a, s\<lparr>tick := Suc (tick s)\<rparr>)" using g s1 by simp
    have unf: "getMpArticles e mpId page retryCount s =
        (case fetchJson (upstream e (Suc (tick s)) ?rq) of
           Inr arts \<Rightarrow> (Inr arts, ?s2)
         | Inl err \<Rightarrow>
             if retryCount > 0
             then getMpArticles e mpId page (retryCount - 1)
                    (handleAccountError e (acc_id a) (caughtMessage err) ?s2)
             else (Inl (FetchFailed err), handleAccountError e (acc_id a) (caughtMessage err) ?s2))"
      using g' by (simp add: getMpArticles.simps[of e mpId page retryCount s] Let_def split: sum.split)
    show ?thesis
    proof (cases "fetchJson (upstream e (Suc (tick s)) ?rq)")
      case (Inr arts)
      with run unf have "res = Inr arts" "s' = ?s2" by simp_all
      with g' Inr show ?thesis using ok by blast
    next
      case (Inl err)
      show ?thesis
      proof (cases retryCount)
        case 0
        with run unf Inl have "res = Inl (FetchFailed err)"
          "s' = handleAccountError e (acc_id a) (caughtMessage err) ?s2"
          by simp_all
        with g' Inl 0 show ?thesis using failLast by blast
      next
        case (Suc n)
        with run unf Inl have
          "getMpArticles e mpId page n
             (handleAccountError e (acc_id a) (caughtMessage err) ?s2) = (res, s')"
          by simp
        with g' Inl Suc show ?thesis using failRetry by blast
      qed
    qed
  qed
qed

lemma handleAccountError_frame [simp]:
  "feeds (handleAccountError e x m s) = feeds s"
  "articles (handleAccountError e x m s) = articles s"
  "requests (handleAccountError e x m s) = requests s"
  "tick (handleAccountError e x m s) = tick s"
  "isRefreshAllMpArticlesRunning (handleAccountError e x m s) = isRefreshAllMpArticlesRunning s"
  "inProgressHistoryMp_id (handleAccountError e x m s) = inProgressHistoryMp_id s"
  "inProgressHistoryMp_page (handleAccountError e x m s) = inProgressHistoryMp_page s"
  "sleeps (handleAccountError e x m s) = sleeps s"
  "errorLog (handleAccountError e x m s) = errorLog s"
  by (simp_all add: handleAccountError_def updateAccount_def Let_def)

lemma getMpArticles_frame:
  "getMpArticles e mpId page retryCount s = (res, s') \<Longrightarrow>
     feeds s' = feeds s \<and> articles s' = articles s
   \<and> isRefreshAllMpArticlesRunning s' = isRefreshAllMpArticlesRunning s
   \<and> inProgressHistoryMp_id s' = inProgressHistoryMp_id s
   \<and> inProgressHistoryMp_page s' = inProgressHistoryMp_page s
   \<and> sleeps s' = sleeps s \<and> errorLog s' = errorLog s"
proof (induction retryCount arbitrary: s)
  case 0
  from "0.prems" show ?case
    by (cases rule: getMpArticles_cases) simp_all
next
  case (Suc k)
  from Suc.prems show ?case
  proof (cases rule: getMpArticles_cases)
    case (failRetry a err n)
    from failRetry(3) have nk: "n = k" by simp
    from failRetry(4) have "getMpArticles e mpId page k
         (handleAccountError e (acc_id a) (caughtMessage err)
            (s\<lparr>tick := Suc (Suc (tick s)),
               requests := requests s @ [(Suc (tick s),
                 \<lparr>req_xid = acc_id a, req_mpId = mpId, req_page = page\<rparr>)]\<rparr>)) = (res, s')"
      unfolding nk .
    from Suc.IH[OF this] show ?thesis by simp
  qed simp_all
qed

lemma getMpArticles_log:
  "getMpArticles e mpId page retryCount s = (res, s') \<Longrightarrow>
     \<exists>new. requests s' = requests s @ new
       \<and> length new \<le> retryCount + 1
       \<and> (\<forall>q \<in> set new. req_mpId (snd q) = mpId \<and> req_page (snd q) = page)
       \<and> (\<forall>q \<in> set (butlast new). requestFailed e q)
       \<and> (\<forall>arts. res = Inr arts \<longrightarrow>
             new \<noteq> [] \<and> fetchJson (upstream e (fst (last new)) (snd (last new))) = Inr arts)
       \<and> (\<forall>err. res = Inl (FetchFailed err) \<longrightarrow>
             length new = retryCount + 1
           \<and> fetchJson (upstream e (fst (last new)) (snd (last new))) = Inl err)
       \<and> (res = Inl NoAvailableAccount \<longrightarrow>
             length new \<le> retryCount \<and> (\<forall>q \<in> set new. requestFailed e q)
           \<and> getAvailableAccounts (accounts s') (getBlockedAccountIds e s') = [])
       \<and> res \<noteq> Inl FeedNotExist"
proof (induction retryCount arbitrary: s)
  case 0
  from "0.prems" show ?case
  proof (cases rule: getMpArticles_cases)
    case noAccount
    then show ?thesis by (intro exI[of _ "[]"]) simp
  next
    case (ok a arts)
    then show ?thesis
      by (intro exI[of _ "[(Suc (tick s), \<lparr>req_xid = acc_id a, req_mpId = mpId, req_page = page\<rparr>)]"])
        simp
  next
    case (failLast a err)
    then show ?thesis
      by (intro exI[of _ "[(Suc (tick s), \<lparr>req_xid = acc_id a, req_mpId = mpId, req_page = page\<rparr>)]"])
        simp
  next
    case (failRetry a err n)
    then show ?thesis by simp
  qed
next
  case (Suc k)
  from Suc.prems show ?case
  proof (cases rule: getMpArticles_cases)
    case noAccount
    then show ?thesis by (intro exI[of _ "[]"]) simp
  next
    case (ok a arts)
    then show ?thesis
      by (intro exI[of _ "[(Suc (tick s), \<lparr>req_xid = acc_id a, req_mpId = mpId, req_page = page\<rparr>)]"])
        simp
  next
    case (failLast a err)
    then show ?thesis by simp
  next
    case (failRetry a err n)
    let ?q = "(Suc (tick s), \<lparr>req_xid = acc_id a, req_mpId = mpId, req_page = page\<rparr>)"
    let ?s3 = "handleAccountError e (acc_id a) (caughtMessage err)
            (s\<lparr>tick := Suc (Suc (tick s)), requests := requests s @ [?q]\<rparr>)"
    from failRetry(3) have nk: "n = k" by simp
    from failRetry(4) have run': "getMpArticles e mpId page k ?s3 = (res, s')"
      unfolding nk .
    from Suc.IH[OF run'] obtain new where
      rq: "requests s' = requests ?s3 @ new"
      and len: "length new \<le> k + 1"
      and tgt: "\<forall>q \<in> set new. req_mpId (snd q) = mpId \<and> req_page (snd q) = page"
      and bl: "\<forall>q \<in> set (butlast new). requestFailed e q"
      and okc: "\<forall>arts. res = Inr arts \<longrightarrow>
             new \<noteq> [] \<and> fetchJson (upstream e (fst (last new)) (snd (last new))) = Inr arts"
      and errc: "\<forall>err. res = Inl (FetchFailed err) \<longrightarrow>
             length new = k + 1
           \<and> fetchJson (upstream e (fst (last new)) (snd (last new))) = Inl err"
      and noc: "res = Inl NoAvailableAccount \<longrightarrow>
             length new \<le> k \<and> (\<forall>q \<in> set new. requestFailed e q)
           \<and> getAvailableAccounts (accounts s') (getBlockedAccountIds e s') = []"
      and nf: "res \<noteq> Inl FeedNotExist"
      by blast
    have qf: "requestFailed e ?q" using failRetry(2) by (simp add: requestFailed_def)
    have c1: "requests s' = requests s @ (?q # new)" using rq by simp
    have c2: "length (?q # new) \<le> Suc k + 1" using len by simp
    have c3: "\<forall>q \<in> set (?q # new). req_mpId (snd q) = mpId \<and> req_page (snd q) = page"
      using tgt by simp
    have c4: "\<forall>q \<in> set (butlast (?q # new)). requestFailed e q"
      using bl qf by simp
    have c5: "\<forall>arts. res = Inr arts \<longrightarrow>
             ?q # new \<noteq> []
           \<and> fetchJson (upstream e (fst (last (?q # new))) (snd (last (?q # new)))) = Inr arts"
      using okc by simp
    have c6: "\<forall>err. res = Inl (FetchFailed err) \<longrightarrow>
             length (?q # new) = Suc k + 1
           \<and> fetchJson (upstream e (fst (last (?q # new))) (snd (last (?q # new)))) = Inl err"
    proof (intro allI impI)
      fix err' assume r: "res = Inl (FetchFailed err')"
      with errc have l: "length new = k + 1"
        and f: "fetchJson (upstream e (fst (last new)) (snd (last new))) = Inl err'" by simp_all
      from l have "new \<noteq> []" by auto
      with l f show "length (?q # new) = Suc k + 1
           \<and> fetchJson (upstream e (fst (last (?q # new))) (snd (last (?q # new)))) = Inl err'"
        by simp
    qed
    have c7: "res = Inl NoAvailableAccount \<longrightarrow>
             length (?q # new) \<le> Suc k \<and> (\<forall>q \<in> set (?q # new). requestFailed e q)
           \<and> getAvailableAccounts (accounts s') (getBlockedAccountIds e s') = []"
      using noc qf by simp
    show ?thesis
      using c1 c2 c3 c4 c5 c6 c7 nf by (intro exI[of _ "?q # new"]) blast
  qed
qed

subsection \<open>Credentials that are out of the draw\<close>


lemma outOfDraw_tick_requests [simp]:
  "outOfDraw e x (s\<lparr>tick := t, requests := r\<rparr>) = outOfDraw e x s"
  by (simp add: outOfDraw_def getBlockedAccountIds_def)





section \<open>Basic facts about a sync\<close>

lemma upsertArticles_frame [simp]:
  "feeds (upsertArticles e m arts s) = feeds s"
  "accounts (upsertArticles e m arts s) = accounts s"
  "blockedAccountsMap (upsertArticles e m arts s) = blockedAccountsMap s"
  "requests (upsertArticles e m arts s) = requests s"
  "tick (upsertArticles e m arts s) = tick s"
  "isRefreshAllMpArticlesRunning (upsertArticles e m arts s) = isRefreshAllMpArticlesRunning s"
  "inProgressHistoryMp_id (upsertArticles e m arts s) = inProgressHistoryMp_id s"
  "inProgressHistoryMp_page (upsertArticles e m arts s) = inProgressHistoryMp_page s"
  "sleeps (upsertArticles e m arts s) = sleeps s"
  "errorLog (upsertArticles e m arts s) = errorLog s"
  by (simp_all add: upsertArticles_def)

lemma updateFeed_frame [simp]:
  "articles (updateFeed e i p s) = articles s"
  "accounts (updateFeed e i p s) = accounts s"
  "blockedAccountsMap (updateFeed e i p s) = blockedAccountsMap s"
  "requests (updateFeed e i p s) = requests s"
  "tick (updateFeed e i p s) = tick s"
  "isRefreshAllMpArticlesRunning (updateFeed e i p s) = isRefreshAllMpArticlesRunning s"
  "inProgressHistoryMp_id (updateFeed e i p s) = inProgressHistoryMp_id s"
  "inProgressHistoryMp_page (updateFeed e i p s) = inProgressHistoryMp_page s"
  "sleeps (updateFeed e i p s) = sleeps s"
  "errorLog (updateFeed e i p s) = errorLog s"
  by (simp_all add: updateFeed_def)

lemma patchFeed_id [simp]: "feed_id (patchFeed p now f) = feed_id f"
  by (simp add: patchFeed_def)





lemma refresh_cases [consumes 1, case_names failed synced]:
  assumes run: "refreshMpArticlesAndUpdateFeed e mpId page s = (res, s')"
  obtains
    (failed) err where "getMpArticles e mpId page 3 s = (Inl err, s')" "res = Inl err"
  | (synced) arts s1 where "getMpArticles e mpId page 3 s = (Inr arts, s1)"
      "res = Inr (if length arts < defaultCount then 0 else 1)"
      "s' = updateFeed e mpId
              \<lparr>fp_mpName = None, fp_mpCover = None, fp_mpIntro = None,
               fp_syncTime = Some (nowMs e div 1000), fp_updateTime = None,
               fp_status = None,
               fp_hasHistory = Some (if length arts < defaultCount then 0 else 1)\<rparr>
              (if length arts > 0 then upsertArticles e mpId arts s1 else s1)"
proof (cases "getMpArticles e mpId page 3 s")
  case (Pair r s1)
  show ?thesis
  proof (cases r)
    case (Inl err)
    with Pair run have "res = Inl err" "s' = s1"
      by (simp_all add: refreshMpArticlesAndUpdateFeed_def)
    with Pair Inl show ?thesis using failed by simp
  next
    case (Inr arts)
    with Pair run have "res = Inr (if length arts < defaultCount then 0 else 1)"
      "s' = updateFeed e mpId
              \<lparr>fp_mpName = None, fp_mpCover = None, fp_mpIntro = None,
               fp_syncTime = Some (nowMs e div 1000), fp_updateTime = None,
               fp_status = None,
               fp_hasHistory = Some (if length arts < defaultCount then 0 else 1)\<rparr>
              (if length arts > 0 then upsertArticles e mpId arts s1 else s1)"
      by (simp_all add: refreshMpArticlesAndUpdateFeed_def Let_def)
    with Pair Inr show ?thesis using synced by simp
  qed
qed

lemma sleep_frame [simp]:
  "feeds (sleep ms s) = feeds s"
  "articles (sleep ms s) = articles s"
  "accounts (sleep ms s) = accounts s"
  "blockedAccountsMap (sleep ms s) = blockedAccountsMap s"
  "requests (sleep ms s) = requests s"
  "tick (sleep ms s) = tick s"
  "isRefreshAllMpArticlesRunning (sleep ms s) = isRefreshAllMpArticlesRunning s"
  "inProgressHistoryMp_id (sleep ms s) = inProgressHistoryMp_id s"
  "inProgressHistoryMp_page (sleep ms s) = inProgressHistoryMp_page s"
  "errorLog (sleep ms s) = errorLog s"
  by (simp_all add: sleep_def)

lemma getMpArticles_sends:
  assumes run: "getMpArticles e mpId page retryCount s = (res, s')"
    and av: "getAvailableAccounts (accounts s) (getBlockedAccountIds e s) \<noteq> []"
    and rq: "requests s' = requests s @ new"
  shows "new \<noteq> []"
  using run
proof (cases rule: getMpArticles_cases)
  case noAccount
  with av show ?thesis by simp
next
  case (ok a arts)
  with rq show ?thesis by auto
next
  case (failLast a err)
  with rq show ?thesis by auto
next
  case (failRetry a err n)
  from getMpArticles_log[OF failRetry(4)] obtain new' where
    "requests s' = requests (handleAccountError e (acc_id a) (caughtMessage err)
            (s\<lparr>tick := Suc (Suc (tick s)),
               requests := requests s @ [(Suc (tick s),
                 \<lparr>req_xid = acc_id a, req_mpId = mpId, req_page = page\<rparr>)]\<rparr>)) @ new'"
    by blast
  then have "requests s' = requests s @ ((Suc (tick s),
                 \<lparr>req_xid = acc_id a, req_mpId = mpId, req_page = page\<rparr>) # new')" by simp
  with rq show ?thesis by auto
qed

lemma refresh_frame:
  assumes run: "refreshMpArticlesAndUpdateFeed e mpId page s = (res, s')"
  shows "isRefreshAllMpArticlesRunning s' = isRefreshAllMpArticlesRunning s
       \<and> inProgressHistoryMp_id s' = inProgressHistoryMp_id s
       \<and> inProgressHistoryMp_page s' = inProgressHistoryMp_page s
       \<and> sleeps s' = sleeps s \<and> errorLog s' = errorLog s"
  using run
proof (cases rule: refresh_cases)
  case (failed err)
  from getMpArticles_frame[OF failed(1)] show ?thesis by simp
next
  case (synced arts s1)
  from getMpArticles_frame[OF synced(1)] show ?thesis unfolding synced(3) by simp
qed

lemma refresh_requests:
  assumes run: "refreshMpArticlesAndUpdateFeed e mpId page s = (res, s')"
  shows "\<exists>new. requests s' = requests s @ new
       \<and> (\<forall>q \<in> set new. req_mpId (snd q) = mpId \<and> req_page (snd q) = page)
       \<and> (getAvailableAccounts (accounts s) (getBlockedAccountIds e s) \<noteq> [] \<longrightarrow> new \<noteq> [])
       \<and> (\<forall>h. res = Inr h \<longrightarrow> new \<noteq> [])"
  using run
proof (cases rule: refresh_cases)
  case (failed err)
  from getMpArticles_log[OF failed(1)] obtain new where
    n: "requests s' = requests s @ new"
    "\<forall>q \<in> set new. req_mpId (snd q) = mpId \<and> req_page (snd q) = page"
    by blast
  have "getAvailableAccounts (accounts s) (getBlockedAccountIds e s) \<noteq> [] \<longrightarrow> new \<noteq> []"
    using getMpArticles_sends[OF failed(1) _ n(1)] by blast
  with n failed(2) show ?thesis by (intro exI[of _ new]) simp
next
  case (synced arts s1)
  from getMpArticles_log[OF synced(1)] obtain new where
    n: "requests s1 = requests s @ new"
    "\<forall>q \<in> set new. req_mpId (snd q) = mpId \<and> req_page (snd q) = page"
    "new \<noteq> []"
    by blast
  have "requests s' = requests s1" unfolding synced(3) by simp
  with n show ?thesis by (intro exI[of _ new]) simp
qed

subsection \<open>Requests of the deep-history loop\<close>

lemma historyLoop_requests:
  "historyLoop e mpId k s = (res, s') \<Longrightarrow>
     \<exists>new. requests s' = requests s @ new
       \<and> (\<forall>q \<in> set new. req_mpId (snd q) = mpId)
       \<and> (new \<noteq> [] \<longrightarrow> req_page (snd (hd new)) = inProgressHistoryMp_page s)"
proof (induction k arbitrary: s)
  case 0
  then show ?case by simp
next
  case (Suc k)
  show ?case
  proof (cases "inProgressHistoryMp_id s \<noteq> mpId")
    case True
    with Suc.prems show ?thesis by simp
  next
    case False
    obtain r1 s1 where r: "refreshMpArticlesAndUpdateFeed e mpId (inProgressHistoryMp_page s) s = (r1, s1)"
      by (cases "refreshMpArticlesAndUpdateFeed e mpId (inProgressHistoryMp_page s) s")
    from refresh_requests[OF r] obtain new1 where
      n1: "requests s1 = requests s @ new1"
      and t1: "\<forall>q \<in> set new1. req_mpId (snd q) = mpId \<and> req_page (snd q) = inProgressHistoryMp_page s"
      and ok1: "\<forall>h. r1 = Inr h \<longrightarrow> new1 \<noteq> []"
      by blast
    have hd1: "new1 \<noteq> [] \<longrightarrow> req_page (snd (hd new1)) = inProgressHistoryMp_page s"
      using t1 by (cases new1) simp_all
    show ?thesis
    proof (cases r1)
      case (Inl err)
      with Suc.prems False r have "s' = s1" by simp
      with n1 t1 hd1 show ?thesis by (intro exI[of _ new1]) simp
    next
      case (Inr h)
      show ?thesis
      proof (cases "h < 1")
        case True
        with Suc.prems False r Inr have "s' = s1" by simp
        with n1 t1 hd1 show ?thesis by (intro exI[of _ new1]) simp
      next
        case nolt: False
        let ?s2 = "sleep (updateDelaySeconds e * 1000)
                         (s1\<lparr>inProgressHistoryMp_page := inProgressHistoryMp_page s1 + 1\<rparr>)"
        from Suc.prems False r Inr nolt have run': "historyLoop e mpId k ?s2 = (res, s')"
          by simp
        from Suc.IH[OF run'] obtain new2 where
          n2: "requests s' = requests ?s2 @ new2"
          and t2: "\<forall>q \<in> set new2. req_mpId (snd q) = mpId"
          by blast
        from ok1 Inr have ne: "new1 \<noteq> []" by simp
        have c1: "requests s' = requests s @ (new1 @ new2)" using n1 n2 by simp
        have c2: "\<forall>q \<in> set (new1 @ new2). req_mpId (snd q) = mpId" using t1 t2 by auto
        have c3: "req_page (snd (hd (new1 @ new2))) = inProgressHistoryMp_page s"
          using ne hd1 by simp
        show ?thesis using c1 c2 c3 by (intro exI[of _ "new1 @ new2"]) simp
      qed
    qed
  qed
qed

lemma historyLoop_sends:
  assumes run: "historyLoop e mpId (Suc k) s = (res, s')"
    and mark: "inProgressHistoryMp_id s = mpId"
    and av: "getAvailableAccounts (accounts s) (getBlockedAccountIds e s) \<noteq> []"
  shows "requests s' \<noteq> requests s"
proof -
  obtain r1 s1 where r: "refreshMpArticlesAndUpdateFeed e mpId (inProgressHistoryMp_page s) s = (r1, s1)"
    by (cases "refreshMpArticlesAndUpdateFeed e mpId (inProgressHistoryMp_page s) s")
  from refresh_requests[OF r] av obtain new1 where
    n1: "requests s1 = requests s @ new1" and ne: "new1 \<noteq> []" by blast
  have "\<exists>new2. requests s' = requests s1 @ new2"
  proof (cases r1)
    case (Inl err)
    with run mark r have "s' = s1" by simp
    then show ?thesis by simp
  next
    case (Inr h)
    show ?thesis
    proof (cases "h < 1")
      case True
      with run mark r Inr have "s' = s1" by simp
      then show ?thesis by simp
    next
      case False
      let ?s2 = "sleep (updateDelaySeconds e * 1000)
                         (s1\<lparr>inProgressHistoryMp_page := inProgressHistoryMp_page s1 + 1\<rparr>)"
      from run mark r Inr False have run': "historyLoop e mpId k ?s2 = (res, s')" by simp
      from historyLoop_requests[OF run'] obtain new2 where "requests s' = requests ?s2 @ new2"
        by blast
      then show ?thesis by simp
    qed
  qed
  then obtain new2 where "requests s' = requests s @ (new1 @ new2)" using n1 by auto
  with ne show ?thesis by simp
qed

lemma count_backfillState: "countArticlesByMpId ''mp1'' backfillState = 45"
  by (simp add: countArticlesByMpId_def backfillState_def exRow_def filter_map o_def)

subsection \<open>The running flag\<close>

lemma sweepLoop_flag:
  "sweepLoop e fs s = (res, s')
   \<Longrightarrow> isRefreshAllMpArticlesRunning s' = isRefreshAllMpArticlesRunning s"
proof (induction fs arbitrary: s)
  case Nil
  then show ?case by simp
next
  case (Cons f fs)
  obtain r1 s1 where r: "refreshMpArticlesAndUpdateFeed e (feed_id f) 1 s = (r1, s1)"
    by (cases "refreshMpArticlesAndUpdateFeed e (feed_id f) 1 s")
  from refresh_frame[OF r] have f1: "isRefreshAllMpArticlesRunning s1 = isRefreshAllMpArticlesRunning s"
    by simp
  show ?case
  proof (cases r1)
    case (Inl err)
    with Cons.prems r have "s' = s1" by simp
    with f1 show ?thesis by simp
  next
    case (Inr h)
    with Cons.prems r have "sweepLoop e fs (sleep (updateDelaySeconds e * 1000) s1) = (res, s')"
      by simp
    from Cons.IH[OF this] f1 show ?thesis by simp
  qed
qed






section \<open>Basic facts about the blocklist\<close>

lemma removeBlockedAccount_frame [simp]:
  "accounts (removeBlockedAccount e x s) = accounts s"
  "feeds (removeBlockedAccount e x s) = feeds s"
  "articles (removeBlockedAccount e x s) = articles s"
  "tick (removeBlockedAccount e x s) = tick s"
  "requests (removeBlockedAccount e x s) = requests s"
  "sleeps (removeBlockedAccount e x s) = sleeps s"
  "errorLog (removeBlockedAccount e x s) = errorLog s"
  by (simp_all add: removeBlockedAccount_def split: option.split)



lemma removeBlockedAccount_other_days:
  "d \<noteq> today e \<Longrightarrow> blockedAccountsMap (removeBlockedAccount e x s) d = blockedAccountsMap s d"
  by (simp add: removeBlockedAccount_def split: option.split)

lemma updateAccount_frame [simp]:
  "blockedAccountsMap (updateAccount e x p s) = blockedAccountsMap s"
  "feeds (updateAccount e x p s) = feeds s"
  "articles (updateAccount e x p s) = articles s"
  "tick (updateAccount e x p s) = tick s"
  "requests (updateAccount e x p s) = requests s"
  "sleeps (updateAccount e x p s) = sleeps s"
  "errorLog (updateAccount e x p s) = errorLog s"
  by (simp_all add: updateAccount_def)


section \<open>Credential selection\<close>




section \<open>Syncing one feed\<close>









section \<open>Error handling\<close>

text \<open>
  Claim C3 (as amended). \<open>handleAccountError\<close> is handed the error's message only, and
  classifies by the markers in it; the HTTP status is not consulted. For every credential id
  \<open>x\<close>, message \<open>m\<close> and state: if \<open>m\<close> contains \<open>WeReadError401\<close>, every row with id
  \<open>x\<close> gets status invalid, the other rows and the blocklist are as before; otherwise,
  if \<open>m\<close> contains \<open>WeReadError429\<close>, \<open>x\<close> is appended to today's blocklist, other days
  and all credentials are as before; with neither marker nothing changes.
\<close>

theorem handleAccountError_effect:
  "(str_includes m ''WeReadError401'' \<longrightarrow>
      handleAccountError e x m s
        = s\<lparr>accounts := accounts (handleAccountError e x m s)\<rparr>
    \<and> map acc_id (accounts (handleAccountError e x m s)) = map acc_id (accounts s)
    \<and> (\<forall>a \<in> set (accounts (handleAccountError e x m s)).
          acc_id a = x \<longrightarrow> acc_status a = statusMap_INVALID)
    \<and> (\<forall>a \<in> set (accounts s). acc_id a \<noteq> x \<longrightarrow> a \<in> set (accounts (handleAccountError e x m s)))
    \<and> blockedAccountsMap (handleAccountError e x m s) = blockedAccountsMap s)
 \<and> (\<not> str_includes m ''WeReadError401'' \<and> str_includes m ''WeReadError429'' \<longrightarrow>
      handleAccountError e x m s
        = s\<lparr>blockedAccountsMap := blockedAccountsMap (handleAccountError e x m s)\<rparr>
    \<and> blockedAccountsMap (handleAccountError e x m s) (today e)
        = Some ((case blockedAccountsMap s (today e) of None \<Rightarrow> [] | Some l \<Rightarrow> l) @ [x])
    \<and> (\<forall>d. d \<noteq> today e \<longrightarrow>
          blockedAccountsMap (handleAccountError e x m s) d = blockedAccountsMap s d)
    \<and> accounts (handleAccountError e x m s) = accounts s)
 \<and> (\<not> str_includes m ''WeReadError401'' \<and> \<not> str_includes m ''WeReadError429'' \<longrightarrow>
      handleAccountError e x m s = s)"
proof (intro conjI impI)
  assume u: "str_includes m ''WeReadError401''"
  then have h: "handleAccountError e x m s
      = updateAccount e x \<lparr>ap_token = None, ap_name = None, ap_status = Some statusMap_INVALID\<rparr> s"
    by (simp add: handleAccountError_def)
  show "handleAccountError e x m s = s\<lparr>accounts := accounts (handleAccountError e x m s)\<rparr>"
    unfolding h by (rule updateAccount_other_fields)
  show "map acc_id (accounts (handleAccountError e x m s)) = map acc_id (accounts s)"
    unfolding h by (rule updateAccount_ids)
  show "\<forall>a \<in> set (accounts (handleAccountError e x m s)).
          acc_id a = x \<longrightarrow> acc_status a = statusMap_INVALID"
  proof (intro ballI impI)
    fix a assume "a \<in> set (accounts (handleAccountError e x m s))" "acc_id a = x"
    then obtain b where "a = patchAccount \<lparr>ap_token = None, ap_name = None,
        ap_status = Some statusMap_INVALID\<rparr> (nowMs e) b"
      unfolding h using updateAccount_hit by blast
    then show "acc_status a = statusMap_INVALID" by (simp add: patchAccount_status)
  qed
  show "\<forall>a \<in> set (accounts s). acc_id a \<noteq> x \<longrightarrow> a \<in> set (accounts (handleAccountError e x m s))"
    unfolding h using updateAccount_miss by blast
  show "blockedAccountsMap (handleAccountError e x m s) = blockedAccountsMap s"
    by (simp add: h updateAccount_def)
next
  assume r: "\<not> str_includes m ''WeReadError401'' \<and> str_includes m ''WeReadError429''"
  then have h: "handleAccountError e x m s
      = s\<lparr>blockedAccountsMap := (blockedAccountsMap s)
            (today e \<mapsto> (case blockedAccountsMap s (today e) of None \<Rightarrow> [] | Some l \<Rightarrow> l) @ [x])\<rparr>"
    by (simp add: handleAccountError_def)
  show "handleAccountError e x m s
        = s\<lparr>blockedAccountsMap := blockedAccountsMap (handleAccountError e x m s)\<rparr>"
    by (simp add: h)
  show "blockedAccountsMap (handleAccountError e x m s) (today e)
        = Some ((case blockedAccountsMap s (today e) of None \<Rightarrow> [] | Some l \<Rightarrow> l) @ [x])"
    by (simp add: h)
  show "\<forall>d. d \<noteq> today e \<longrightarrow>
          blockedAccountsMap (handleAccountError e x m s) d = blockedAccountsMap s d"
    by (simp add: h)
  show "accounts (handleAccountError e x m s) = accounts s"
    by (simp add: h)
next
  assume "\<not> str_includes m ''WeReadError401'' \<and> \<not> str_includes m ''WeReadError429''"
  then show "handleAccountError e x m s = s"
    by (simp add: handleAccountError_def)
qed

text \<open>One instance for each of the three cases, on a store with the single valid credential
  \<open>a1\<close> and an empty blocklist.\<close>

theorem handleAccountError_effect_witness:
  "str_includes ''WeReadError401: token expired'' ''WeReadError401''
   \<and> map acc_status
         (accounts (handleAccountError exEnv ''a1'' ''WeReadError401: token expired'' oneAccountState))
       = [statusMap_INVALID]
   \<and> blockedAccountsMap
         (handleAccountError exEnv ''a1'' ''WeReadError401: token expired'' oneAccountState)
       = blockedAccountsMap oneAccountState
   \<and> \<not> str_includes ''WeReadError429: too fast'' ''WeReadError401''
   \<and> str_includes ''WeReadError429: too fast'' ''WeReadError429''
   \<and> blockedAccountsMap (handleAccountError exEnv ''a1'' ''WeReadError429: too fast'' oneAccountState)
        (today exEnv) = Some [''a1'']
   \<and> accounts (handleAccountError exEnv ''a1'' ''WeReadError429: too fast'' oneAccountState)
       = accounts oneAccountState
   \<and> \<not> str_includes ''fetch failed'' ''WeReadError401''
   \<and> \<not> str_includes ''fetch failed'' ''WeReadError429''
   \<and> handleAccountError exEnv ''a1'' ''fetch failed'' oneAccountState = oneAccountState"
proof -
  have u: "str_includes ''WeReadError401: token expired'' ''WeReadError401''" by simp
  have r1: "\<not> str_includes ''WeReadError429: too fast'' ''WeReadError401''" by simp
  have r2: "str_includes ''WeReadError429: too fast'' ''WeReadError429''" by simp
  have o1: "\<not> str_includes ''fetch failed'' ''WeReadError401''" by simp
  have o2: "\<not> str_includes ''fetch failed'' ''WeReadError429''" by simp
  have st: "map acc_status
         (accounts (handleAccountError exEnv ''a1'' ''WeReadError401: token expired'' oneAccountState))
       = [statusMap_INVALID]"
    using u by (simp add: handleAccountError_def updateAccount_def patchAccount_def
        oneAccountState_def exState_def exAccount_def)
  have bl: "blockedAccountsMap
         (handleAccountError exEnv ''a1'' ''WeReadError401: token expired'' oneAccountState)
       = blockedAccountsMap oneAccountState"
    using handleAccountError_effect [of "''WeReadError401: token expired''" exEnv "''a1''" oneAccountState] u
    by blast
  have rl: "blockedAccountsMap (handleAccountError exEnv ''a1'' ''WeReadError429: too fast'' oneAccountState)
        (today exEnv) = Some ((case blockedAccountsMap oneAccountState (today exEnv) of
                                 None \<Rightarrow> [] | Some l \<Rightarrow> l) @ [''a1''])"
    and ra: "accounts (handleAccountError exEnv ''a1'' ''WeReadError429: too fast'' oneAccountState)
       = accounts oneAccountState"
    using handleAccountError_effect [of "''WeReadError429: too fast''" exEnv "''a1''" oneAccountState] r1 r2
    by blast+
  have rl': "blockedAccountsMap (handleAccountError exEnv ''a1'' ''WeReadError429: too fast'' oneAccountState)
        (today exEnv) = Some [''a1'']"
    using rl by (simp add: oneAccountState_def exState_def)
  have ot: "handleAccountError exEnv ''a1'' ''fetch failed'' oneAccountState = oneAccountState"
    using handleAccountError_effect [of "''fetch failed''" exEnv "''a1''" oneAccountState] o1 o2
    by blast
  show ?thesis using u r1 r2 o1 o2 st bl rl' ra ot by blast
qed

text \<open>Claim C3 as stated, with the specification's classes, fails for a response with HTTP
  status 401 (or 429) whose body has no message: \<open>fetchJson\<close> throws \<open>Request failed: 401\<close>,
  which the specification classifies as \<open>Unauthorized\<close> (or \<open>RateLimited\<close>), and the
  handler, which sees the message alone, changes nothing.\<close>

theorem handleAccountError_counterexample:
  "fetchJson (Response 401 None ([] :: mpArticle list)) = Inl (bareStatusError 401)
   \<and> spec_classify (bareStatusError 401) = Unauthorized
   \<and> map acc_status (accounts oneAccountState) = [statusMap_ENABLE]
   \<and> handleAccountError exEnv ''a1'' (caughtMessage (bareStatusError 401)) oneAccountState
       = oneAccountState
   \<and> fetchJson (Response 429 None ([] :: mpArticle list)) = Inl (bareStatusError 429)
   \<and> spec_classify (bareStatusError 429) = RateLimited
   \<and> handleAccountError exEnv ''a1'' (caughtMessage (bareStatusError 429)) oneAccountState
       = oneAccountState"
proof -
  have m1: "caughtMessage (bareStatusError 401) = ''Request failed: 401''"
    by (simp add: bareStatusError_def caughtMessage_def orElse_def stringOfInt_401)
  have m2: "caughtMessage (bareStatusError 429) = ''Request failed: 429''"
    by (simp add: bareStatusError_def caughtMessage_def orElse_def stringOfInt_429)
  have f1: "fetchJson (Response 401 None ([] :: mpArticle list)) = Inl (bareStatusError 401)"
    by (simp add: fetchJson_def bareStatusError_def orElse_def)
  have f2: "fetchJson (Response 429 None ([] :: mpArticle list)) = Inl (bareStatusError 429)"
    by (simp add: fetchJson_def bareStatusError_def orElse_def)
  have c1: "spec_classify (bareStatusError 401) = Unauthorized"
    by (simp add: spec_classify_def bareStatusError_def)
  have c2: "spec_classify (bareStatusError 429) = RateLimited"
    unfolding spec_classify_def m2 by (simp add: bareStatusError_def)
  have s0: "map acc_status (accounts oneAccountState) = [statusMap_ENABLE]"
    by (simp add: oneAccountState_def exState_def exAccount_def statusMap_ENABLE_def)
  have h1: "handleAccountError exEnv ''a1'' (caughtMessage (bareStatusError 401)) oneAccountState
       = oneAccountState"
    unfolding m1 by (simp add: handleAccountError_def)
  have h2: "handleAccountError exEnv ''a1'' (caughtMessage (bareStatusError 429)) oneAccountState
       = oneAccountState"
    unfolding m2 by (simp add: handleAccountError_def)
  show ?thesis using f1 f2 c1 c2 s0 h1 h2 by blast
qed

section \<open>Fetching a page of articles\<close>







section \<open>Syncing all feeds\<close>





section \<open>Deep-history sync\<close>

text \<open>
  Claim C6. For every feed with \<open>n\<close> stored articles, the first page that
  \<open>getHistoryMpArticles\<close> requests is page \<open>\<lceil>n / 20\<rceil>\<close>: every request sent during the
  call is for the given feed, and the first of them, if there is one, asks for that page (for
  \<open>n = 0\<close> this is page 0). A request is sent whenever no backfill for the feed is marked
  in progress, the id is not empty, the feed exists with \<open>has_history\<close> other than 0, and
  a credential is available.
\<close>

theorem getHistoryMpArticles_first_page:
  assumes run: "getHistoryMpArticles e mpId s = (res, s')"
  shows "\<exists>new. requests s' = requests s @ new
       \<and> (\<forall>q \<in> set new. req_mpId (snd q) = mpId)
       \<and> (new \<noteq> [] \<longrightarrow>
             req_page (snd (hd new)) = \<lceil>real (countArticlesByMpId mpId s) / real defaultCount\<rceil>)
       \<and> (inProgressHistoryMp_id s \<noteq> mpId \<and> mpId \<noteq> []
            \<and> (\<exists>f. getFeedById mpId s = Some f \<and> has_history f \<noteq> 0)
            \<and> getAvailableAccounts (accounts s) (getBlockedAccountIds e s) \<noteq> []
          \<longrightarrow> new \<noteq> [])"
proof (cases "inProgressHistoryMp_id s = mpId \<or> mpId = []")
  case True
  have "requests s' = requests s"
  proof (cases "inProgressHistoryMp_id s = mpId")
    case same: True
    with run show ?thesis by (simp add: getHistoryMpArticles_def)
  next
    case other: False
    with True have "mpId = []" by simp
    with run other have
      "s' = s\<lparr>inProgressHistoryMp_id := mpId, inProgressHistoryMp_page := 1\<rparr>"
      by (simp add: getHistoryMpArticles_def Let_def)
    then show ?thesis by simp
  qed
  with True show ?thesis by (intro exI[of _ "[]"]) auto
next
  case False
  let ?s1 = "s\<lparr>inProgressHistoryMp_id := mpId, inProgressHistoryMp_page := 1\<rparr>"
  obtain r2 s2 where body: "historyBody e mpId ?s1 = (r2, s2)"
    by (cases "historyBody e mpId ?s1")
  from run False body have s': "s' = s2\<lparr>inProgressHistoryMp_id := [], inProgressHistoryMp_page := 1\<rparr>"
    by (simp add: getHistoryMpArticles_def Let_def)
  have rq': "requests s' = requests s2" unfolding s' by simp
  have fd: "getFeedById mpId ?s1 = getFeedById mpId s" by (simp add: getFeedById_def)
  have cnt: "countArticlesByMpId mpId ?s1 = countArticlesByMpId mpId s"
    by (simp add: countArticlesByMpId_def)
  show ?thesis
  proof (cases "getFeedById mpId s")
    case None
    with body fd have "s2 = ?s1" by (simp add: historyBody_def)
    with rq' have "requests s' = requests s" by simp
    with None show ?thesis by (intro exI[of _ "[]"]) simp
  next
    case (Some f)
    show ?thesis
    proof (cases "has_history f = 0")
      case True
      with body fd Some have "s2 = ?s1" by (simp add: historyBody_def)
      with rq' have "requests s' = requests s" by simp
      with Some True show ?thesis by (intro exI[of _ "[]"]) simp
    next
      case nz: False
      let ?P = "\<lceil>real (countArticlesByMpId mpId s) / real defaultCount\<rceil>"
      let ?s0 = "?s1\<lparr>inProgressHistoryMp_page := ?P\<rparr>"
      from body fd Some nz cnt have loop: "historyLoop e mpId 1000 ?s0 = (r2, s2)"
        by (simp add: historyBody_def Let_def)
      from historyLoop_requests[OF loop] obtain new where
        n: "requests s2 = requests ?s0 @ new"
        and t: "\<forall>q \<in> set new. req_mpId (snd q) = mpId"
        and p: "new \<noteq> [] \<longrightarrow> req_page (snd (hd new)) = inProgressHistoryMp_page ?s0"
        by blast
      have c1: "requests s' = requests s @ new" using n rq' by simp
      have c3: "new \<noteq> [] \<longrightarrow> req_page (snd (hd new)) = ?P" using p by simp
      have c4: "getAvailableAccounts (accounts s) (getBlockedAccountIds e s) \<noteq> [] \<longrightarrow> new \<noteq> []"
      proof
        assume av: "getAvailableAccounts (accounts s) (getBlockedAccountIds e s) \<noteq> []"
        have loop': "historyLoop e mpId (Suc 999) ?s0 = (r2, s2)" using loop by simp
        have "getAvailableAccounts (accounts ?s0) (getBlockedAccountIds e ?s0) \<noteq> []"
          using av by (simp add: getBlockedAccountIds_def)
        from historyLoop_sends[OF loop' _ this] have "requests s2 \<noteq> requests ?s0" by simp
        with n show "new \<noteq> []" by auto
      qed
      show ?thesis using c1 t c3 c4 by (intro exI[of _ new]) blast
    qed
  qed
qed

text \<open>With 45 articles stored the first page requested is page 3.\<close>

theorem getHistoryMpArticles_first_page_witness:
  "countArticlesByMpId ''mp1'' backfillState = 45
   \<and> requests backfillState = []
   \<and> requests (snd (getHistoryMpArticles exEnv ''mp1'' backfillState)) \<noteq> []
   \<and> req_page (snd (hd (requests (snd (getHistoryMpArticles exEnv ''mp1'' backfillState))))) = 3"
proof -
  let ?s' = "snd (getHistoryMpArticles exEnv ''mp1'' backfillState)"
  have run: "getHistoryMpArticles exEnv ''mp1'' backfillState
      = (fst (getHistoryMpArticles exEnv ''mp1'' backfillState), ?s')" by simp
  have r0: "requests backfillState = []"
    by (simp add: backfillState_def oneAccountState_def exState_def)
  have m: "inProgressHistoryMp_id backfillState \<noteq> ''mp1''"
    by (simp add: backfillState_def oneAccountState_def exState_def)
  have f: "getFeedById ''mp1'' backfillState = Some (exFeed ''mp1'' 1)"
    by (simp add: getFeedById_def backfillState_def exFeed_def)
  have h: "has_history (exFeed ''mp1'' 1) \<noteq> 0" by (simp add: exFeed_def)
  have av: "getAvailableAccounts (accounts backfillState)
      (getBlockedAccountIds exEnv backfillState) \<noteq> []"
    by (simp add: getAvailableAccounts_def getBlockedAccountIds_def backfillState_def
        oneAccountState_def exState_def exAccount_def statusMap_ENABLE_def)
  from getHistoryMpArticles_first_page[OF run] obtain new where
    n: "requests ?s' = requests backfillState @ new"
    and p: "new \<noteq> [] \<longrightarrow> req_page (snd (hd new))
        = \<lceil>real (countArticlesByMpId ''mp1'' backfillState) / real defaultCount\<rceil>"
    and ne: "inProgressHistoryMp_id backfillState \<noteq> ''mp1'' \<and> ''mp1'' \<noteq> []
            \<and> (\<exists>f. getFeedById ''mp1'' backfillState = Some f \<and> has_history f \<noteq> 0)
            \<and> getAvailableAccounts (accounts backfillState)
                 (getBlockedAccountIds exEnv backfillState) \<noteq> []
          \<longrightarrow> new \<noteq> []"
    by blast
  from ne m f h av have nn: "new \<noteq> []" by simp
  with p have "req_page (snd (hd new)) = 3"
    by (simp add: count_backfillState defaultCount_def)
  with n nn r0 show ?thesis using count_backfillState by simp
qed

section \<open>Re-authentication\<close>










section \<open>Health check\<close>

text \<open>
  Claim C8. The probe of \<open>checkAccountValidity\<close> asks for page 1 of the first enabled feed
  (or of \<open>gh_test\<close>) with the credential under test, and changes nothing but the history of
  requests. The verdict is "invalid" (\<open>False\<close>) exactly when the upstream answered with a
  status outside 200..299 that is 401 or whose body message contains \<open>WeReadError401\<close>; any
  other answer (404, another error status, a successful response) and a request that never
  got an answer give "still valid".
\<close>

theorem checkAccountValidity_verdict:
  "(let rq = \<lparr>req_xid = accountId,
               req_mpId = (case listEnabledFeeds s of
                             [] \<Rightarrow> ''gh_test''
                           | f # fs \<Rightarrow> if feed_id f \<noteq> [] then feed_id f else ''gh_test''),
               req_page = 1\<rparr>
    in snd (checkAccountValidity e accountId token s)
         = s\<lparr>tick := Suc (tick s), requests := requests s @ [(tick s, rq)]\<rparr>
     \<and> (fst (checkAccountValidity e accountId token s) = False
          \<longleftrightarrow> (case upstream e (tick s) rq of
                 Rejected m \<Rightarrow> False
               | Response code msg d \<Rightarrow>
                   \<not> (200 \<le> code \<and> code \<le> 299)
                   \<and> (code = 401 \<or> str_includes (orElse msg []) ''WeReadError401''))))"
proof -
  let ?rq = "\<lparr>req_xid = accountId,
               req_mpId = (case listEnabledFeeds s of
                             [] \<Rightarrow> ''gh_test''
                           | f # fs \<Rightarrow> if feed_id f \<noteq> [] then feed_id f else ''gh_test''),
               req_page = 1\<rparr>"
  let ?s1 = "s\<lparr>tick := Suc (tick s), requests := requests s @ [(tick s, ?rq)]\<rparr>"
  have unf: "checkAccountValidity e accountId token s =
      (case fetchJson (upstream e (tick s) ?rq) of
         Inr d \<Rightarrow> (True, ?s1)
       | Inl err \<Rightarrow>
           if err_status err = Some 401
              \<or> str_includes (orElse (err_data_message err) []) ''WeReadError401''
           then (False, ?s1) else (True, ?s1))"
    by (simp add: checkAccountValidity_def Let_def split: sum.split)
  have st: "snd (checkAccountValidity e accountId token s) = ?s1"
    unfolding unf by (simp split: sum.split)
  have v: "fst (checkAccountValidity e accountId token s) = False
          \<longleftrightarrow> (case upstream e (tick s) ?rq of
                 Rejected m \<Rightarrow> False
               | Response code msg d \<Rightarrow>
                   \<not> (200 \<le> code \<and> code \<le> 299)
                   \<and> (code = 401 \<or> str_includes (orElse msg []) ''WeReadError401''))"
  proof (cases "upstream e (tick s) ?rq")
    case (Rejected m)
    then show ?thesis unfolding unf by (simp add: fetchJson_def orElse_def)
  next
    case (Response code msg d)
    show ?thesis
    proof (cases "200 \<le> code \<and> code \<le> 299")
      case True
      with Response show ?thesis unfolding unf by (simp add: fetchJson_def)
    next
      case False
      with Response show ?thesis unfolding unf by (simp add: fetchJson_def)
    qed
  qed
  show ?thesis unfolding Let_def using st v by blast
qed

text \<open>A bare 401 and a 500 carrying the marker are "invalid"; 404, a 500 without the
  marker, 200 and a network failure are "still valid".\<close>

theorem checkAccountValidity_verdict_witness:
  "fst (checkAccountValidity (statusEnv 401 None) ''a1'' ''tok-a1'' oneFeedState) = False
   \<and> fst (checkAccountValidity (statusEnv 500 (Some ''WeReadError401: login expired''))
            ''a1'' ''tok-a1'' oneFeedState) = False
   \<and> fst (checkAccountValidity (statusEnv 404 None) ''a1'' ''tok-a1'' oneFeedState) = True
   \<and> fst (checkAccountValidity (statusEnv 500 (Some ''internal error''))
            ''a1'' ''tok-a1'' oneFeedState) = True
   \<and> fst (checkAccountValidity (statusEnv 200 None) ''a1'' ''tok-a1'' oneFeedState) = True
   \<and> fst (checkAccountValidity exEnv ''a1'' ''tok-a1'' oneFeedState) = True
   \<and> map (req_mpId \<circ> snd)
        (requests (snd (checkAccountValidity exEnv ''a1'' ''tok-a1'' oneFeedState))) = [''mp1'']"
proof -
  have w1: "fst (checkAccountValidity (statusEnv 401 None) ''a1'' ''tok-a1'' oneFeedState) = False"
    using checkAccountValidity_verdict[of "''a1''" oneFeedState "statusEnv 401 None" "''tok-a1''"]
    by (simp add: Let_def statusEnv_def exEnv_def)
  have w2: "fst (checkAccountValidity (statusEnv 500 (Some ''WeReadError401: login expired''))
            ''a1'' ''tok-a1'' oneFeedState) = False"
    using checkAccountValidity_verdict[of "''a1''" oneFeedState
        "statusEnv 500 (Some ''WeReadError401: login expired'')" "''tok-a1''"]
    by (simp add: Let_def statusEnv_def exEnv_def orElse_def)
  have w3: "fst (checkAccountValidity (statusEnv 404 None) ''a1'' ''tok-a1'' oneFeedState) = True"
    using checkAccountValidity_verdict[of "''a1''" oneFeedState "statusEnv 404 None" "''tok-a1''"]
    by (simp add: Let_def statusEnv_def exEnv_def orElse_def)
  have w4: "fst (checkAccountValidity (statusEnv 500 (Some ''internal error''))
            ''a1'' ''tok-a1'' oneFeedState) = True"
    using checkAccountValidity_verdict[of "''a1''" oneFeedState
        "statusEnv 500 (Some ''internal error'')" "''tok-a1''"]
    by (simp add: Let_def statusEnv_def exEnv_def orElse_def)
  have w5: "fst (checkAccountValidity (statusEnv 200 None) ''a1'' ''tok-a1'' oneFeedState) = True"
    using checkAccountValidity_verdict[of "''a1''" oneFeedState "statusEnv 200 None" "''tok-a1''"]
    by (simp add: Let_def statusEnv_def exEnv_def)
  have w6: "fst (checkAccountValidity exEnv ''a1'' ''tok-a1'' oneFeedState) = True"
    using checkAccountValidity_verdict[of "''a1''" oneFeedState exEnv "''tok-a1''"]
    by (simp add: Let_def exEnv_def)
  have w7: "map (req_mpId \<circ> snd)
        (requests (snd (checkAccountValidity exEnv ''a1'' ''tok-a1'' oneFeedState))) = [''mp1'']"
    using checkAccountValidity_verdict[of "''a1''" oneFeedState exEnv "''tok-a1''"]
    by (simp add: Let_def listEnabledFeeds_def oneFeedState_def oneAccountState_def exState_def
        exFeed_def statusMap_ENABLE_def)
  show ?thesis using w1 w2 w3 w4 w5 w6 w7 by blast
qed

section \<open>Upserting articles\<close>

lemma upsertArticle_ids:
  "map art_id (upsertArticle now m a tbl)
     = (if ma_id a \<in> set (map art_id tbl) then map art_id tbl else map art_id tbl @ [ma_id a])"
proof (cases "ma_id a \<in> set (map art_id tbl)")
  case True
  have "map art_id (map (\<lambda>r. if art_id r = ma_id a
                     then r\<lparr>title := ma_title a, pic_url := ma_picUrl a,
                            publish_time := ma_publishTime a, mp_id := m,
                            art_updated_at := now\<rparr>
                     else r) tbl) = map art_id tbl"
    by (induction tbl) simp_all
  with True show ?thesis by (simp add: upsertArticle_def)
next
  case False
  then show ?thesis by (simp add: upsertArticle_def)
qed

lemma upsertArticle_distinct:
  "distinct (map art_id tbl) \<Longrightarrow> distinct (map art_id (upsertArticle now m a tbl))"
  unfolding upsertArticle_ids by simp

lemma upsertRows_distinct:
  "distinct (map art_id tbl) \<Longrightarrow> distinct (map art_id (upsertRows now m arts tbl))"
  by (induction arts arbitrary: tbl) (simp_all add: upsertArticle_distinct)

lemma upsertArticle_others:
  "filter (\<lambda>r. art_id r \<noteq> ma_id a) (upsertArticle now m a tbl)
     = filter (\<lambda>r. art_id r \<noteq> ma_id a) tbl"
proof (cases "ma_id a \<in> set (map art_id tbl)")
  case True
  have "filter (\<lambda>r. art_id r \<noteq> ma_id a) (map (\<lambda>r. if art_id r = ma_id a
                     then r\<lparr>title := ma_title a, pic_url := ma_picUrl a,
                            publish_time := ma_publishTime a, mp_id := m,
                            art_updated_at := now\<rparr>
                     else r) tbl) = filter (\<lambda>r. art_id r \<noteq> ma_id a) tbl"
    by (induction tbl) simp_all
  with True show ?thesis by (simp add: upsertArticle_def)
next
  case False
  then show ?thesis by (simp add: upsertArticle_def)
qed

lemma filter_id_distinct:
  "distinct (map art_id tbl) \<Longrightarrow> length (filter (\<lambda>r. art_id r = i) tbl) \<le> 1"
proof (induction tbl)
  case Nil
  then show ?case by simp
next
  case (Cons r tbl)
  show ?case
  proof (cases "art_id r = i")
    case True
    with Cons.prems have "i \<notin> art_id ` set tbl" by auto
    then have "filter (\<lambda>r. art_id r = i) tbl = []" by (auto simp add: filter_empty_conv)
    with True show ?thesis by simp
  next
    case False
    with Cons show ?thesis by simp
  qed
qed

lemma upsertArticle_row:
  assumes d: "distinct (map art_id tbl)"
  shows "\<exists>r. filter (\<lambda>r. art_id r = ma_id a) (upsertArticle now m a tbl) = [r]
       \<and> title r = ma_title a \<and> pic_url r = ma_picUrl a
       \<and> publish_time r = ma_publishTime a \<and> mp_id r = m \<and> art_updated_at r = now
       \<and> (\<forall>old \<in> set tbl. art_id old = ma_id a \<longrightarrow> art_created_at r = art_created_at old)"
proof (cases "ma_id a \<in> set (map art_id tbl)")
  case False
  then have no: "\<forall>old \<in> set tbl. art_id old \<noteq> ma_id a"
    by (metis image_eqI set_map)
  then have none: "filter (\<lambda>r. art_id r = ma_id a) tbl = []"
    by (simp add: filter_empty_conv)
  let ?new = "\<lparr>art_id = ma_id a, mp_id = m, title = ma_title a, pic_url = ma_picUrl a,
                    publish_time = ma_publishTime a, art_created_at = now,
                    art_updated_at = now\<rparr>"
  from False none have "filter (\<lambda>r. art_id r = ma_id a) (upsertArticle now m a tbl) = [?new]"
    by (simp add: upsertArticle_def)
  with no show ?thesis by (intro exI[of _ ?new]) simp
next
  case True
  let ?u = "\<lambda>r. r\<lparr>title := ma_title a, pic_url := ma_picUrl a,
                            publish_time := ma_publishTime a, mp_id := m,
                            art_updated_at := now\<rparr>"
  have m1: "filter (\<lambda>r. art_id r = ma_id a) (map (\<lambda>r. if art_id r = ma_id a then ?u r else r) tbl)
      = map ?u (filter (\<lambda>r. art_id r = ma_id a) tbl)"
    by (induction tbl) simp_all
  from True obtain old where old: "old \<in> set tbl" "art_id old = ma_id a" by auto
  then have "old \<in> set (filter (\<lambda>r. art_id r = ma_id a) tbl)" by simp
  then have ne: "filter (\<lambda>r. art_id r = ma_id a) tbl \<noteq> []"
    by (metis empty_iff empty_set)
  from filter_id_distinct[OF d, of "ma_id a"] ne
  obtain o1 where o1: "filter (\<lambda>r. art_id r = ma_id a) tbl = [o1]"
    by (cases "filter (\<lambda>r. art_id r = ma_id a) tbl") auto
  have uniq: "\<forall>old \<in> set tbl. art_id old = ma_id a \<longrightarrow> old = o1"
  proof (intro ballI impI)
    fix x assume "x \<in> set tbl" "art_id x = ma_id a"
    then have "x \<in> set (filter (\<lambda>r. art_id r = ma_id a) tbl)" by simp
    with o1 show "x = o1" by simp
  qed
  from True m1 o1 have "filter (\<lambda>r. art_id r = ma_id a) (upsertArticle now m a tbl) = [?u o1]"
    by (simp add: upsertArticle_def)
  with uniq show ?thesis by (intro exI[of _ "?u o1"]) auto
qed

lemma upsertArticle_length:
  "ma_id a \<in> set (map art_id tbl) \<Longrightarrow> length (upsertArticle now m a tbl) = length tbl"
  by (simp add: upsertArticle_def)

lemma upsertArticle_present: "ma_id a \<in> set (map art_id (upsertArticle now m a tbl))"
  unfolding upsertArticle_ids by simp

text \<open>
  Claim C9. On a table whose ids are distinct (\<open>id\<close> is the primary key),
  \<open>upsertArticles\<close> keeps the ids distinct for every batch. After upserting one article
  there is exactly one row with its id; that row carries the article's title, picture URL and
  publish time, the feed id given, and the time of the call as \<open>updated_at\<close>, and keeps
  the \<open>created_at\<close> of the row it replaces, if there was one; the rows with other ids are as
  before, and the table has not grown when the id was already stored. Upserting a second
  article with the same id, from any feed and at any time, again leaves exactly one row with
  that id, now with the second title, and the same number of rows; a batch of the two does
  the same as the two calls in turn.
\<close>

theorem upsertArticles_upsert:
  assumes d: "distinct (map art_id (articles s))"
  shows
    "distinct (map art_id (articles (upsertArticles e m arts s)))
   \<and> (\<exists>r. filter (\<lambda>r. art_id r = ma_id a) (articles (upsertArticles e m [a] s)) = [r]
         \<and> title r = ma_title a \<and> pic_url r = ma_picUrl a
         \<and> publish_time r = ma_publishTime a \<and> mp_id r = m \<and> art_updated_at r = nowMs e
         \<and> (\<forall>old \<in> set (articles s). art_id old = ma_id a
               \<longrightarrow> art_created_at r = art_created_at old))
   \<and> filter (\<lambda>r. art_id r \<noteq> ma_id a) (articles (upsertArticles e m [a] s))
       = filter (\<lambda>r. art_id r \<noteq> ma_id a) (articles s)
   \<and> (ma_id a \<in> set (map art_id (articles s))
        \<longrightarrow> length (articles (upsertArticles e m [a] s)) = length (articles s))
   \<and> (ma_id b = ma_id a \<longrightarrow>
         (\<exists>r. filter (\<lambda>r. art_id r = ma_id a)
                 (articles (upsertArticles e' m' [b] (upsertArticles e m [a] s))) = [r]
             \<and> title r = ma_title b)
       \<and> length (articles (upsertArticles e' m' [b] (upsertArticles e m [a] s)))
           = length (articles (upsertArticles e m [a] s))
       \<and> upsertArticles e m [a, b] s = upsertArticles e m [b] (upsertArticles e m [a] s))"
proof (intro conjI impI)
  show "distinct (map art_id (articles (upsertArticles e m arts s)))"
    using d by (simp add: upsertArticles_def upsertRows_distinct)
  show "\<exists>r. filter (\<lambda>r. art_id r = ma_id a) (articles (upsertArticles e m [a] s)) = [r]
         \<and> title r = ma_title a \<and> pic_url r = ma_picUrl a
         \<and> publish_time r = ma_publishTime a \<and> mp_id r = m \<and> art_updated_at r = nowMs e
         \<and> (\<forall>old \<in> set (articles s). art_id old = ma_id a
               \<longrightarrow> art_created_at r = art_created_at old)"
    using upsertArticle_row[OF d, of a "nowMs e" m] by (simp add: upsertArticles_def)
  show "filter (\<lambda>r. art_id r \<noteq> ma_id a) (articles (upsertArticles e m [a] s))
       = filter (\<lambda>r. art_id r \<noteq> ma_id a) (articles s)"
    by (simp add: upsertArticles_def upsertArticle_others)
next
  assume "ma_id a \<in> set (map art_id (articles s))"
  then show "length (articles (upsertArticles e m [a] s)) = length (articles s)"
    by (simp add: upsertArticles_def upsertArticle_length)
next
  assume same: "ma_id b = ma_id a"
  let ?t1 = "upsertArticle (nowMs e) m a (articles s)"
  have d1: "distinct (map art_id ?t1)" using d by (rule upsertArticle_distinct)
  have in1: "ma_id b \<in> set (map art_id ?t1)" unfolding same by (rule upsertArticle_present)
  from upsertArticle_row[OF d1, of b "nowMs e'" m'] obtain r where
    "filter (\<lambda>r. art_id r = ma_id b) (upsertArticle (nowMs e') m' b ?t1) = [r]"
    "title r = ma_title b" by blast
  then show "\<exists>r. filter (\<lambda>r. art_id r = ma_id a)
                 (articles (upsertArticles e' m' [b] (upsertArticles e m [a] s))) = [r]
             \<and> title r = ma_title b"
    unfolding same by (simp add: upsertArticles_def)
  show "length (articles (upsertArticles e' m' [b] (upsertArticles e m [a] s)))
           = length (articles (upsertArticles e m [a] s))"
    using upsertArticle_length[OF in1] by (simp add: upsertArticles_def)
  show "upsertArticles e m [a, b] s = upsertArticles e m [b] (upsertArticles e m [a] s)"
    by (simp add: upsertArticles_def)
qed

text \<open>The article \<open>art1\<close> upserted twice into an empty table, with two titles: one row,
  with the second title.\<close>

theorem upsertArticles_upsert_witness:
  "distinct (map art_id (articles exState))
   \<and> ma_id ((exArticle ''art1'' 1700000500)\<lparr>ma_title := ''second title''\<rparr>)
       = ma_id (exArticle ''art1'' 1700000000)
   \<and> map title
        (articles (upsertArticles exEnv ''mp1''
           [(exArticle ''art1'' 1700000500)\<lparr>ma_title := ''second title''\<rparr>]
           (upsertArticles exEnv ''mp1'' [exArticle ''art1'' 1700000000] exState)))
       = [''second title'']
   \<and> length
        (articles (upsertArticles exEnv ''mp1''
           [(exArticle ''art1'' 1700000500)\<lparr>ma_title := ''second title''\<rparr>]
           (upsertArticles exEnv ''mp1'' [exArticle ''art1'' 1700000000] exState)))
       = length (articles (upsertArticles exEnv ''mp1'' [exArticle ''art1'' 1700000000] exState))"
proof -
  let ?a = "exArticle ''art1'' 1700000000"
  let ?b = "(exArticle ''art1'' 1700000500)\<lparr>ma_title := ''second title''\<rparr>"
  have d: "distinct (map art_id (articles exState))" by (simp add: exState_def)
  have same: "ma_id ?b = ma_id ?a" by (simp add: exArticle_def)
  from upsertArticles_upsert[OF d, of exEnv "''mp1''" "[]" ?a ?b exEnv "''mp1''"] same
  have len: "length (articles (upsertArticles exEnv ''mp1'' [?b]
                 (upsertArticles exEnv ''mp1'' [?a] exState)))
       = length (articles (upsertArticles exEnv ''mp1'' [?a] exState))"
    by blast
  have t: "map title (articles (upsertArticles exEnv ''mp1'' [?b]
                 (upsertArticles exEnv ''mp1'' [?a] exState))) = [''second title'']"
    by (simp add: upsertArticles_def upsertArticle_def exArticle_def exState_def)
  show ?thesis using d same t len by blast
qed

section \<open>Generating a feed document\<close>







end
